theory Spec2Isabelle
  imports Main
begin

section \<open>Lineup constraints of draftfast (\<open>draftfast/lineup_contraints.py\<close>)\<close>

text \<open>
  The module keeps the rules that restrict which players an optimizer may put into a
  lineup: group constraints (``exactly \<open>n\<close> of these players'', ``between \<open>lo\<close> and
  \<open>hi\<close> of these players''), banned and locked players, and the exposure variants of
  bans and locks.

  Players are Python strings throughout the module (\<open>_iterableify\<close> tests for \<open>str\<close>,
  \<open>__hash__\<close> joins the players, \<open>__str__\<close> prepends a tab to each), so a player is a
  \<open>string\<close> here. Python's integers are unbounded: bounds are \<open>int\<close>.
\<close>

subsection \<open>Exceptions\<close>

text \<open>
  The two exception classes of the module, each carrying the raise site in place of the
  message text. \<open>TypeError\<close> is Python's own: the sanity checks compare \<open>self.exact\<close>,
  \<open>self.lo\<close> and \<open>self.hi\<close> with numbers, which raises when the field is still \<open>None\<close>.
\<close>

type_synonym player = string

datatype validation =
    NoPlayers                \<comment> \<open>'No players in group'\<close>
  | DuplicatePlayers         \<comment> \<open>'Duplicate players in group'\<close>
  | BadBoundShape            \<comment> \<open>'Bound must be length 2 or int'\<close>
  | ExactNotPositive         \<comment> \<open>'Exact bound may not less than or equal to zero'\<close>
  | ExactTooLarge            \<comment> \<open>'Exact bound may not be greater than or equal to number of players in group'\<close>
  | LowerBelowOne            \<comment> \<open>'Lower bound for ... cannot be less than 1'\<close>
  | LowerEqualsUpper         \<comment> \<open>'Lower bound for ... cannot equal upper bound'\<close>
  | UpperBelowLower          \<comment> \<open>'Upper bound for ... cannot be less than lower bound.'\<close>
  | BoundAboveGroupSize      \<comment> \<open>'Bound for ... cannot be greater than number of players group'\<close>
  | EmptyBanGroup            \<comment> \<open>'Empty ban group'\<close>
  | EmptyLockGroup           \<comment> \<open>'Empty lock group'\<close>

datatype conflict =
    BanLockExists player     \<comment> \<open>'Ban/lock constraint for p already exists'\<close>
  | DuplicateConstraint      \<comment> \<open>'Duplicate constraint'\<close>
  | ExistsInAnother player   \<comment> \<open>'p exists in another constraint'\<close>

datatype error =
    ConstraintException validation
  | ConstraintConflictException conflict
  | TypeError

fun raises_ConstraintException :: "error + 'a \<Rightarrow> bool" where
  "raises_ConstraintException (Inl (ConstraintException v)) = True"
| "raises_ConstraintException r = False"

fun raises_ConstraintConflictException :: "error + 'a \<Rightarrow> bool" where
  "raises_ConstraintConflictException (Inl (ConstraintConflictException k)) = True"
| "raises_ConstraintConflictException r = False"

subsection \<open>\<open>PlayerGroupConstraint\<close>\<close>

text \<open>
  The \<open>bound\<close> argument of the constructor is dynamically typed: the code accepts a list
  or tuple of length two, or an \<open>int\<close>, and rejects everything else.
\<close>

datatype bound =
    IntBound int             \<comment> \<open>\<open>isinstance(bound, int)\<close>\<close>
  | SeqBound "int list"      \<comment> \<open>\<open>isinstance(bound, (list, tuple))\<close>\<close>
  | OtherBound               \<comment> \<open>any other object\<close>

record PlayerGroupConstraint =
  players :: "player list"
  exact :: "int option"
  lo :: "int option"
  hi :: "int option"

text \<open>\<open>PlayerConstraint.__init__\<close>: the checks on the group, then \<open>self.players = players\<close>.\<close>

definition PlayerConstraint_init :: "player list \<Rightarrow> error + player list" where
  "PlayerConstraint_init ps =
     (if length ps = 0 then Inl (ConstraintException NoPlayers)
      else if length ps \<noteq> card (set ps) then Inl (ConstraintException DuplicatePlayers)
      else Inr ps)"

definition exact_bounds_sanity_check :: "PlayerGroupConstraint \<Rightarrow> error + unit" where
  "exact_bounds_sanity_check self =
     (case exact self of
        None \<Rightarrow> Inl TypeError
      | Some e \<Rightarrow>
          if e \<le> 0 then Inl (ConstraintException ExactNotPositive)
          else if e \<ge> int (length (players self)) then Inl (ConstraintException ExactTooLarge)
          else Inr ())"

definition hi_lo_bounds_sanity_check :: "PlayerGroupConstraint \<Rightarrow> error + unit" where
  "hi_lo_bounds_sanity_check self =
     (case lo self of
        None \<Rightarrow> Inl TypeError
      | Some l \<Rightarrow>
          if l < 1 then Inl (ConstraintException LowerBelowOne)
          else (case hi self of
                  None \<Rightarrow> Inl TypeError
                | Some h \<Rightarrow>
                    if h = l then Inl (ConstraintException LowerEqualsUpper)
                    else if h < l then Inl (ConstraintException UpperBelowLower)
                    else if h > int (length (players self)) \<or> l > int (length (players self))
                      then Inl (ConstraintException BoundAboveGroupSize)
                    else Inr ()))"

text \<open>
  \<open>PlayerGroupConstraint.__init__\<close>. The object under construction is local to the call:
  when a check raises, it is dropped and the caller sees only the exception.
\<close>

definition PlayerGroupConstraint_init :: "player list \<Rightarrow> bound \<Rightarrow> error + PlayerGroupConstraint" where
  "PlayerGroupConstraint_init ps b =
     (case PlayerConstraint_init ps of
        Inl e \<Rightarrow> Inl e
      | Inr ps' \<Rightarrow>
          (let self = \<lparr>players = ps', exact = None, lo = None, hi = None\<rparr> in
           case b of
             SeqBound bs \<Rightarrow>
               if length bs = 2 then
                 (let self = self\<lparr>lo := Some (bs ! 0), hi := Some (bs ! 1)\<rparr> in
                  case hi_lo_bounds_sanity_check self of
                    Inl e \<Rightarrow> Inl e
                  | Inr _ \<Rightarrow> Inr self)
               else Inl (ConstraintException BadBoundShape)
           | IntBound n \<Rightarrow>
               (let self = self\<lparr>exact := Some n\<rparr> in
                case exact_bounds_sanity_check self of
                  Inl e \<Rightarrow> Inl e
                | Inr _ \<Rightarrow> Inr self)
           | OtherBound \<Rightarrow> Inl (ConstraintException BadBoundShape)))"

text \<open>\<open>PlayerGroupConstraint.__eq__\<close>, on top of \<open>PlayerConstraint.__eq__\<close>.\<close>

definition PlayerConstraint_eq :: "PlayerGroupConstraint \<Rightarrow> PlayerGroupConstraint \<Rightarrow> bool" where
  "PlayerConstraint_eq self rule = (set (players self) = set (players rule))"

definition PlayerGroupConstraint_eq :: "PlayerGroupConstraint \<Rightarrow> PlayerGroupConstraint \<Rightarrow> bool" where
  "PlayerGroupConstraint_eq self c =
     (PlayerConstraint_eq self c \<and> exact self = exact c \<and> lo self = lo c \<and> hi self = hi c)"

subsection \<open>\<open>LineupConstraints\<close>\<close>

record LineupConstraints =
  constraints :: "PlayerGroupConstraint list"
  banned :: "player set"
  locked :: "player set"
  banned_for_exposure :: "player set"
  locked_for_exposure :: "player set"

definition LineupConstraints_init :: LineupConstraints where
  "LineupConstraints_init =
     \<lparr>constraints = [], banned = {}, locked = {},
      banned_for_exposure = {}, locked_for_exposure = {}\<rparr>"

text \<open>\<open>__len__\<close>\<close>

definition len :: "LineupConstraints \<Rightarrow> nat" where
  "len self =
     length (constraints self) + card (locked self) + card (banned self)
       + card (locked_for_exposure self) + card (banned_for_exposure self)"

text \<open>\<open>__contains__\<close>: the four sets in the source's order, then the loop over the constraints.\<close>

fun in_some_group :: "PlayerGroupConstraint list \<Rightarrow> player \<Rightarrow> bool" where
  "in_some_group [] player = False"
| "in_some_group (c # cs) player = (if player \<in> set (players c) then True else in_some_group cs player)"

definition contains :: "LineupConstraints \<Rightarrow> player \<Rightarrow> bool" where
  "contains self player =
     (if player \<in> locked self then True
      else if player \<in> banned self then True
      else if player \<in> locked_for_exposure self then True
      else if player \<in> banned_for_exposure self then True
      else in_some_group (constraints self) player)"

definition is_banned :: "LineupConstraints \<Rightarrow> player \<Rightarrow> bool" where
  "is_banned self player = (player \<in> banned self)"

definition is_locked :: "LineupConstraints \<Rightarrow> player \<Rightarrow> bool" where
  "is_locked self player = (player \<in> locked self)"

subsection \<open>Operations that change the object\<close>

text \<open>
  An operation runs on the object and leaves a result and the object as it is when the operation
  returns or raises: an exception does not undo what the statements before it did. The
  statements of an operation are put together with \<open>seq\<close>, which stops at the first exception
  and hands on the object as that statement left it.
\<close>

type_synonym 'a action = "LineupConstraints \<Rightarrow> (error + 'a) \<times> LineupConstraints"

definition raise :: "error \<Rightarrow> 'a action" where
  "raise e = (\<lambda>self. (Inl e, self))"

definition pass :: "unit action" where
  "pass = (\<lambda>self. (Inr (), self))"

definition assign :: "(LineupConstraints \<Rightarrow> LineupConstraints) \<Rightarrow> unit action" where
  "assign f = (\<lambda>self. (Inr (), f self))"

definition seq :: "unit action \<Rightarrow> 'a action \<Rightarrow> 'a action" where
  "seq m k = (\<lambda>self. case m self of (Inl e, self') \<Rightarrow> (Inl e, self') | (Inr _, self') \<Rightarrow> k self')"

definition cond :: "(LineupConstraints \<Rightarrow> bool) \<Rightarrow> 'a action \<Rightarrow> 'a action \<Rightarrow> 'a action" where
  "cond b m n = (\<lambda>self. if b self then m self else n self)"

fun for_each :: "'a list \<Rightarrow> ('a \<Rightarrow> unit action) \<Rightarrow> unit action" where
  "for_each [] body = pass"
| "for_each (x # xs) body = seq (body x) (for_each xs body)"

text \<open>\<open>_check_conflicts\<close>; every constraint of the model is a \<open>PlayerGroupConstraint\<close>.\<close>

definition check_conflicts :: "PlayerGroupConstraint \<Rightarrow> unit action" where
  "check_conflicts constraint =
     for_each (players constraint) (\<lambda>p.
       cond (\<lambda>self. p \<in> locked self \<or> p \<in> banned self)
         (raise (ConstraintConflictException (BanLockExists p)))
         pass)"

text \<open>
  \<open>_add\<close>. \<open>constraint not in self._constraints\<close> compares the new object with each
  stored one by \<open>__eq__\<close>.
\<close>

definition add :: "PlayerGroupConstraint \<Rightarrow> unit action" where
  "add constraint =
     seq (check_conflicts constraint)
       (cond (\<lambda>self. \<not> list_ex (\<lambda>c. PlayerGroupConstraint_eq c constraint) (constraints self))
          (assign (\<lambda>self. self\<lparr>constraints := constraints self @ [constraint]\<rparr>))
          (raise (ConstraintConflictException DuplicateConstraint)))"

definition add_group_constraint :: "player list \<Rightarrow> bound \<Rightarrow> unit action" where
  "add_group_constraint ps b =
     (case PlayerGroupConstraint_init ps b of
        Inl e \<Rightarrow> raise e
      | Inr c \<Rightarrow> add c)"

text \<open>
  The \<open>players\<close> argument of \<open>ban\<close> and \<open>lock\<close> is a bare string or a collection of strings;
  \<open>_iterableify\<close> wraps the bare string into a list.
\<close>

datatype players_arg =
    Str player               \<comment> \<open>\<open>isinstance(x, str)\<close>\<close>
  | Coll "player list"       \<comment> \<open>a collection of players\<close>

fun iterableify :: "players_arg \<Rightarrow> player list" where
  "iterableify (Str x) = [x]"
| "iterableify (Coll xs) = xs"

definition ban :: "players_arg \<Rightarrow> bool \<Rightarrow> unit action" where
  "ban ps for_exposure =
     (let players' = iterableify ps in
      seq (cond (\<lambda>self. length players' = 0) (raise (ConstraintException EmptyBanGroup)) pass)
     (seq (for_each players' (\<lambda>p.
             cond (\<lambda>self. contains self p)
               (raise (ConstraintConflictException (ExistsInAnother p)))
               pass))
          (if for_exposure
           then assign (\<lambda>self. self\<lparr>banned_for_exposure := banned_for_exposure self \<union> set players'\<rparr>)
           else assign (\<lambda>self. self\<lparr>banned := banned self \<union> set players'\<rparr>))))"

definition lock :: "players_arg \<Rightarrow> bool \<Rightarrow> unit action" where
  "lock ps for_exposure =
     (let players' = iterableify ps in
      seq (cond (\<lambda>self. length players' = 0) (raise (ConstraintException EmptyLockGroup)) pass)
     (seq (for_each players' (\<lambda>p.
             cond (\<lambda>self. contains self p)
               (raise (ConstraintConflictException (ExistsInAnother p)))
               pass))
          (if for_exposure
           then assign (\<lambda>self. self\<lparr>locked_for_exposure := locked_for_exposure self \<union> set players'\<rparr>)
           else assign (\<lambda>self. self\<lparr>locked := locked self \<union> set players'\<rparr>))))"

definition clear_exposure_constraints :: "unit action" where
  "clear_exposure_constraints =
     seq (assign (\<lambda>self. self\<lparr>locked_for_exposure := {}\<rparr>))
         (assign (\<lambda>self. self\<lparr>banned_for_exposure := {}\<rparr>))"

subsection \<open>\<open>ConstraintIterator\<close>\<close>

text \<open>
  The iterator holds the list of constraints and an index. \<open>__next__\<close> returns the next
  constraint and moves the index, or raises \<open>StopIteration\<close> (\<open>None\<close> here) and leaves the
  iterator as it is. In Python the iterator refers to the list of the object it was made
  from; the record holds the list as it is when the iterator is made, which is the same
  thing for a loop that does not change the object while it runs.
\<close>

record ConstraintIterator =
  it_constraints :: "PlayerGroupConstraint list"
  ndx :: nat

definition iter :: "LineupConstraints \<Rightarrow> ConstraintIterator" where
  "iter self = \<lparr>it_constraints = constraints self, ndx = 0\<rparr>"

definition ConstraintIterator_next ::
    "ConstraintIterator \<Rightarrow> PlayerGroupConstraint option \<times> ConstraintIterator" where
  "ConstraintIterator_next self =
     (if ndx self \<ge> length (it_constraints self) then (None, self)
      else (let r = it_constraints self ! ndx self in (Some r, self\<lparr>ndx := ndx self + 1\<rparr>)))"

text \<open>
  A \<open>for c in ...\<close> loop over an iterator: it calls \<open>__next__\<close> until \<open>StopIteration\<close>.
  \<open>for_loop\<close> gives the values the loop body receives, in order, and the iterator as the
  loop leaves it.
\<close>

function for_loop :: "ConstraintIterator \<Rightarrow> PlayerGroupConstraint list \<times> ConstraintIterator" where
  "for_loop it =
     (case ConstraintIterator_next it of
        (None, it') \<Rightarrow> ([], it')
      | (Some r, it') \<Rightarrow> (case for_loop it' of (rs, it'') \<Rightarrow> (r # rs, it'')))"
  by pat_completeness auto
termination
  by (relation "measure (\<lambda>it. length (it_constraints it) - ndx it)")
     (auto simp: ConstraintIterator_next_def split: if_splits)

declare for_loop.simps [simp del]

section \<open>Properties\<close>

subsection \<open>What the operations compute\<close>

text \<open>
  The statements of an operation, run on an object. A loop that only tests a condition and
  raises stops at the first element that meets it and leaves the object alone.
\<close>

lemma raise_apply: "raise e s = (Inl e, s)" by (simp add: raise_def)
lemma pass_apply: "pass s = (Inr (), s)" by (simp add: pass_def)
lemma assign_apply: "assign f s = (Inr (), f s)" by (simp add: assign_def)
lemma cond_apply: "cond b m n s = (if b s then m s else n s)" by (simp add: cond_def)
lemma seq_apply:
  "seq m k s = (case m s of (Inl e, s') \<Rightarrow> (Inl e, s') | (Inr u, s') \<Rightarrow> k s')"
  by (simp add: seq_def)

lemmas action_simps = raise_apply pass_apply assign_apply cond_apply seq_apply

lemma for_each_guard:
  "for_each ps (\<lambda>p. cond (\<lambda>self. P self p) (raise (E p)) pass) s =
     (case find (P s) ps of None \<Rightarrow> (Inr (), s) | Some p \<Rightarrow> (Inl (E p), s))"
  by (induction ps) (simp_all add: action_simps)

lemma in_some_group_iff:
  "in_some_group cs p \<longleftrightarrow> (\<exists>c \<in> set cs. p \<in> set (players c))"
  by (induction cs) auto

lemma contains_iff:
  "contains s p \<longleftrightarrow>
     p \<in> locked s \<or> p \<in> banned s \<or> p \<in> locked_for_exposure s \<or> p \<in> banned_for_exposure s
       \<or> (\<exists>c \<in> set (constraints s). p \<in> set (players c))"
  by (simp add: contains_def in_some_group_iff)


lemma seq_guard:
  "seq (cond b (raise e) pass) k s = (if b s then (Inl e, s) else k s)"
  by (simp add: action_simps)

lemma seq_for_each_guard:
  "seq (for_each ps (\<lambda>p. cond (\<lambda>self. P self p) (raise (E p)) pass)) k s =
     (case find (P s) ps of None \<Rightarrow> k s | Some p \<Rightarrow> (Inl (E p), s))"
  by (simp add: seq_def for_each_guard split: option.splits)

lemma ban_unfold:
  "ban pl fe s =
     (if iterableify pl = [] then (Inl (ConstraintException EmptyBanGroup), s)
      else case find (contains s) (iterableify pl) of
             Some p \<Rightarrow> (Inl (ConstraintConflictException (ExistsInAnother p)), s)
           | None \<Rightarrow>
               (Inr (), if fe then s\<lparr>banned_for_exposure := banned_for_exposure s \<union> set (iterableify pl)\<rparr>
                        else s\<lparr>banned := banned s \<union> set (iterableify pl)\<rparr>))"
  unfolding ban_def Let_def seq_guard seq_for_each_guard
  by (simp add: assign_apply split: option.splits)

lemma lock_unfold:
  "lock pl fe s =
     (if iterableify pl = [] then (Inl (ConstraintException EmptyLockGroup), s)
      else case find (contains s) (iterableify pl) of
             Some p \<Rightarrow> (Inl (ConstraintConflictException (ExistsInAnother p)), s)
           | None \<Rightarrow>
               (Inr (), if fe then s\<lparr>locked_for_exposure := locked_for_exposure s \<union> set (iterableify pl)\<rparr>
                        else s\<lparr>locked := locked s \<union> set (iterableify pl)\<rparr>))"
  unfolding lock_def Let_def seq_guard seq_for_each_guard
  by (simp add: assign_apply split: option.splits)

lemma add_unfold:
  "add c s =
     (case find (\<lambda>p. p \<in> locked s \<or> p \<in> banned s) (players c) of
        Some p \<Rightarrow> (Inl (ConstraintConflictException (BanLockExists p)), s)
      | None \<Rightarrow>
          if list_ex (\<lambda>g. PlayerGroupConstraint_eq g c) (constraints s)
          then (Inl (ConstraintConflictException DuplicateConstraint), s)
          else (Inr (), s\<lparr>constraints := constraints s @ [c]\<rparr>))"
  unfolding add_def check_conflicts_def seq_for_each_guard
  by (simp add: cond_apply raise_apply assign_apply split: option.splits)


lemma PlayerConstraint_init_unfold:
  "PlayerConstraint_init ps =
     (if ps = [] then Inl (ConstraintException NoPlayers)
      else if \<not> distinct ps then Inl (ConstraintException DuplicatePlayers)
      else Inr ps)"
proof -
  have "length ps \<noteq> card (set ps) \<longleftrightarrow> \<not> distinct ps"
    using distinct_card [of ps] card_distinct [of ps] by metis
  then show ?thesis
    by (simp add: PlayerConstraint_init_def)
qed

lemma PlayerGroupConstraint_init_exact:
  "PlayerGroupConstraint_init ps (IntBound e) =
     (if ps = [] then Inl (ConstraintException NoPlayers)
      else if \<not> distinct ps then Inl (ConstraintException DuplicatePlayers)
      else if e \<le> 0 then Inl (ConstraintException ExactNotPositive)
      else if int (length ps) \<le> e then Inl (ConstraintException ExactTooLarge)
      else Inr \<lparr>players = ps, exact = Some e, lo = None, hi = None\<rparr>)"
  by (simp add: PlayerGroupConstraint_init_def PlayerConstraint_init_unfold
        exact_bounds_sanity_check_def)

lemma PlayerGroupConstraint_init_range:
  "PlayerGroupConstraint_init ps (SeqBound [l, h]) =
     (if ps = [] then Inl (ConstraintException NoPlayers)
      else if \<not> distinct ps then Inl (ConstraintException DuplicatePlayers)
      else if l < 1 then Inl (ConstraintException LowerBelowOne)
      else if h = l then Inl (ConstraintException LowerEqualsUpper)
      else if h < l then Inl (ConstraintException UpperBelowLower)
      else if int (length ps) < h \<or> int (length ps) < l then Inl (ConstraintException BoundAboveGroupSize)
      else Inr \<lparr>players = ps, exact = None, lo = Some l, hi = Some h\<rparr>)"
  by (simp add: PlayerGroupConstraint_init_def PlayerConstraint_init_unfold
        hi_lo_bounds_sanity_check_def)


lemma for_loop_drop:
  "for_loop it =
     (drop (ndx it) (it_constraints it),
      it\<lparr>ndx := max (ndx it) (length (it_constraints it))\<rparr>)"
proof (induction it rule: for_loop.induct)
  case (1 it)
  show ?case
  proof (cases "length (it_constraints it) \<le> ndx it")
    case True
    then have "ConstraintIterator_next it = (None, it)"
      by (simp add: ConstraintIterator_next_def)
    then have "for_loop it = ([], it)"
      by (subst for_loop.simps) simp
    with True show ?thesis
      by (simp add: max_absorb1)
  next
    case False
    let ?it' = "it\<lparr>ndx := ndx it + 1\<rparr>"
    let ?r = "it_constraints it ! ndx it"
    from False have nxt: "ConstraintIterator_next it = (Some ?r, ?it')"
      by (simp add: ConstraintIterator_next_def)
    from "1.IH" [OF nxt [symmetric] refl]
    have ih: "for_loop ?it' =
        (drop (ndx ?it') (it_constraints ?it'),
         ?it'\<lparr>ndx := max (ndx ?it') (length (it_constraints ?it'))\<rparr>)" .
    then have ih': "for_loop (it\<lparr>ndx := Suc (ndx it)\<rparr>) =
        (drop (Suc (ndx it)) (it_constraints it),
         it\<lparr>ndx := max (Suc (ndx it)) (length (it_constraints it))\<rparr>)"
      by simp
    have "for_loop it = (case for_loop ?it' of (rs, it'') \<Rightarrow> (?r # rs, it''))"
      by (subst for_loop.simps) (simp add: nxt)
    also have "\<dots> = (?r # drop (Suc (ndx it)) (it_constraints it),
        it\<lparr>ndx := max (Suc (ndx it)) (length (it_constraints it))\<rparr>)"
      by (simp add: ih')
    also from False have "?r # drop (Suc (ndx it)) (it_constraints it) = drop (ndx it) (it_constraints it)"
      by (simp add: Cons_nth_drop_Suc)
    also from False have "max (Suc (ndx it)) (length (it_constraints it)) = max (ndx it) (length (it_constraints it))"
      by simp
    finally show ?thesis .
  qed
qed

lemma for_loop_iter: "for_loop (iter s) = (constraints s, \<lparr>it_constraints = constraints s, ndx = length (constraints s)\<rparr>)"
  by (simp add: for_loop_drop iter_def)


subsection \<open>Construction of a group constraint\<close>

text \<open>
  Claim C1. For a non-empty group \<open>ps\<close> without duplicates and an integer bound \<open>e\<close>,
  the constructor returns the constraint with \<open>exact = e\<close> when \<open>0 < e < |ps|\<close>, and
  raises \<open>ConstraintException\<close> when \<open>e \<le> 0\<close> or \<open>e \<ge> |ps|\<close>.
\<close>

theorem exact_bound_construction:
  assumes "ps \<noteq> []" and "distinct ps"
  shows "(0 < e \<and> e < int (length ps) \<longrightarrow>
            PlayerGroupConstraint_init ps (IntBound e)
              = Inr \<lparr>players = ps, exact = Some e, lo = None, hi = None\<rparr>)
       \<and> (e \<le> 0 \<or> int (length ps) \<le> e \<longrightarrow>
            raises_ConstraintException (PlayerGroupConstraint_init ps (IntBound e)))"
  using assms by (simp add: PlayerGroupConstraint_init_exact)

theorem exact_bound_construction_witness:
  "PlayerGroupConstraint_init [''a'', ''b'', ''c''] (IntBound 2)
     = Inr \<lparr>players = [''a'', ''b'', ''c''], exact = Some 2, lo = None, hi = None\<rparr>
   \<and> raises_ConstraintException (PlayerGroupConstraint_init [''a'', ''b'', ''c''] (IntBound 0))
   \<and> raises_ConstraintException (PlayerGroupConstraint_init [''a'', ''b'', ''c''] (IntBound 3))"
proof -
  have ne: "[''a'', ''b'', ''c''] \<noteq> []" by simp
  have d: "distinct [''a'', ''b'', ''c'']" by simp
  from exact_bound_construction [OF ne d, of 2] exact_bound_construction [OF ne d, of 0]
    exact_bound_construction [OF ne d, of 3]
  show ?thesis by simp
qed

text \<open>
  Claim C2. For a non-empty group \<open>ps\<close> without duplicates and a pair \<open>(l, h)\<close>, the
  constructor returns the constraint with \<open>lo = l\<close> and \<open>hi = h\<close> when
  \<open>1 \<le> l < h \<le> |ps|\<close>, and raises \<open>ConstraintException\<close> when \<open>h = l\<close>, \<open>h < l\<close>,
  \<open>l < 1\<close>, or one of the two is above \<open>|ps|\<close>.
\<close>

theorem range_bound_construction:
  assumes "ps \<noteq> []" and "distinct ps"
  shows "(1 \<le> l \<and> l < h \<and> h \<le> int (length ps) \<longrightarrow>
            PlayerGroupConstraint_init ps (SeqBound [l, h])
              = Inr \<lparr>players = ps, exact = None, lo = Some l, hi = Some h\<rparr>)
       \<and> (h = l \<or> h < l \<or> l < 1 \<or> int (length ps) < l \<or> int (length ps) < h \<longrightarrow>
            raises_ConstraintException (PlayerGroupConstraint_init ps (SeqBound [l, h])))"
  using assms by (auto simp add: PlayerGroupConstraint_init_range)

theorem range_bound_construction_witness:
  "PlayerGroupConstraint_init [''a'', ''b'', ''c''] (SeqBound [1, 3])
     = Inr \<lparr>players = [''a'', ''b'', ''c''], exact = None, lo = Some 1, hi = Some 3\<rparr>
   \<and> raises_ConstraintException (PlayerGroupConstraint_init [''a'', ''b'', ''c''] (SeqBound [2, 2]))
   \<and> raises_ConstraintException (PlayerGroupConstraint_init [''a'', ''b'', ''c''] (SeqBound [3, 2]))
   \<and> raises_ConstraintException (PlayerGroupConstraint_init [''a'', ''b'', ''c''] (SeqBound [0, 2]))
   \<and> raises_ConstraintException (PlayerGroupConstraint_init [''a'', ''b'', ''c''] (SeqBound [2, 4]))"
proof -
  have ne: "[''a'', ''b'', ''c''] \<noteq> []" by simp
  have d: "distinct [''a'', ''b'', ''c'']" by simp
  from range_bound_construction [OF ne d, of 1 3] range_bound_construction [OF ne d, of 2 2]
    range_bound_construction [OF ne d, of 3 2] range_bound_construction [OF ne d, of 0 2]
    range_bound_construction [OF ne d, of 2 4]
  show ?thesis by simp
qed

subsection \<open>Bans\<close>

text \<open>
  Claim C3. A non-exposure \<open>ban\<close> of a player \<open>p\<close> that is already banned, locked, banned
  or locked for exposure, or in the group of a stored group constraint, raises
  \<open>ConstraintConflictException\<close> and leaves the object, all five collections, as it was.
  A \<open>ban\<close> of a collection \<open>ps\<close> either returns with every player of \<open>ps\<close> added to the
  target set, or raises and leaves the object as it was.
\<close>

theorem ban_conflict_leaves_sets_unchanged:
  "(p \<in> banned s \<or> p \<in> locked s \<or> p \<in> banned_for_exposure s \<or> p \<in> locked_for_exposure s
      \<or> (\<exists>c \<in> set (constraints s). p \<in> set (players c)) \<longrightarrow>
        raises_ConstraintConflictException (fst (ban (Str p) False s))
        \<and> snd (ban (Str p) False s) = s)
   \<and> ((fst (ban (Coll ps) fe s) = Inr ()
         \<and> snd (ban (Coll ps) fe s) =
             (if fe then s\<lparr>banned_for_exposure := banned_for_exposure s \<union> set ps\<rparr>
              else s\<lparr>banned := banned s \<union> set ps\<rparr>))
       \<or> (isl (fst (ban (Coll ps) fe s)) \<and> snd (ban (Coll ps) fe s) = s))"
proof (rule conjI)
  show "p \<in> banned s \<or> p \<in> locked s \<or> p \<in> banned_for_exposure s \<or> p \<in> locked_for_exposure s
      \<or> (\<exists>c \<in> set (constraints s). p \<in> set (players c)) \<longrightarrow>
        raises_ConstraintConflictException (fst (ban (Str p) False s))
        \<and> snd (ban (Str p) False s) = s"
  proof
    assume "p \<in> banned s \<or> p \<in> locked s \<or> p \<in> banned_for_exposure s \<or> p \<in> locked_for_exposure s
      \<or> (\<exists>c \<in> set (constraints s). p \<in> set (players c))"
    then have "contains s p"
      unfolding contains_iff by blast
    then show "raises_ConstraintConflictException (fst (ban (Str p) False s))
        \<and> snd (ban (Str p) False s) = s"
      by (simp add: ban_unfold)
  qed
next
  show "(fst (ban (Coll ps) fe s) = Inr ()
         \<and> snd (ban (Coll ps) fe s) =
             (if fe then s\<lparr>banned_for_exposure := banned_for_exposure s \<union> set ps\<rparr>
              else s\<lparr>banned := banned s \<union> set ps\<rparr>))
       \<or> (isl (fst (ban (Coll ps) fe s)) \<and> snd (ban (Coll ps) fe s) = s)"
    by (simp add: ban_unfold split: option.splits)
qed

theorem ban_conflict_leaves_sets_unchanged_witness:
  "raises_ConstraintConflictException
     (fst (ban (Str ''a'') False
        \<lparr>constraints = [], banned = {''a''}, locked = {},
         banned_for_exposure = {}, locked_for_exposure = {}\<rparr>))
   \<and> snd (ban (Str ''a'') False
        \<lparr>constraints = [], banned = {''a''}, locked = {},
         banned_for_exposure = {}, locked_for_exposure = {}\<rparr>)
      = \<lparr>constraints = [], banned = {''a''}, locked = {},
         banned_for_exposure = {}, locked_for_exposure = {}\<rparr>
   \<and> ban (Coll [''b'', ''c'']) False
        \<lparr>constraints = [], banned = {''a''}, locked = {},
         banned_for_exposure = {}, locked_for_exposure = {}\<rparr>
      = (Inr (), \<lparr>constraints = [], banned = {''a'', ''b'', ''c''}, locked = {},
         banned_for_exposure = {}, locked_for_exposure = {}\<rparr>)"
proof -
  let ?s = "\<lparr>constraints = [], banned = {''a''}, locked = {},
         banned_for_exposure = {}, locked_for_exposure = {}\<rparr>"
  have h: "''a'' \<in> banned ?s \<or> ''a'' \<in> locked ?s \<or> ''a'' \<in> banned_for_exposure ?s
      \<or> ''a'' \<in> locked_for_exposure ?s \<or> (\<exists>c \<in> set (constraints ?s). ''a'' \<in> set (players c))"
    by simp
  have ok: "\<not> isl (fst (ban (Coll [''b'', ''c'']) False ?s))"
    by (simp add: ban_unfold contains_def)
  from ban_conflict_leaves_sets_unchanged [of "''a''" ?s "[''b'', ''c'']" False] h ok
  show ?thesis
    by (auto simp: prod_eq_iff)
qed


subsection \<open>Adding group constraints\<close>

lemma add_group_constraint_unfold:
  "PlayerGroupConstraint_init ps b = Inr c \<Longrightarrow>
   add_group_constraint ps b s =
     (case find (\<lambda>p. p \<in> locked s \<or> p \<in> banned s) (players c) of
        Some p \<Rightarrow> (Inl (ConstraintConflictException (BanLockExists p)), s)
      | None \<Rightarrow>
          if list_ex (\<lambda>g. PlayerGroupConstraint_eq g c) (constraints s)
          then (Inl (ConstraintConflictException DuplicateConstraint), s)
          else (Inr (), s\<lparr>constraints := constraints s @ [c]\<rparr>))"
  by (simp add: add_group_constraint_def add_unfold)

lemma add_group_constraint_invalid:
  "PlayerGroupConstraint_init ps b = Inl e \<Longrightarrow> add_group_constraint ps b s = (Inl e, s)"
  by (simp add: add_group_constraint_def raise_apply)

lemma PlayerGroupConstraint_init_players:
  "PlayerGroupConstraint_init ps b = Inr c \<Longrightarrow> players c = ps"
  by (auto simp: PlayerGroupConstraint_init_def PlayerConstraint_init_def Let_def
        split: if_splits bound.splits sum.splits)

text \<open>
  Claim C4. When the arguments of \<open>add_group_constraint\<close> make a constraint \<open>c\<close> that is
  equal, by \<open>__eq__\<close>, to a stored constraint \<open>g\<close> (the same set of players and the same
  \<open>exact\<close>, \<open>lo\<close> and \<open>hi\<close>), the call raises \<open>ConstraintConflictException\<close>, and the
  object and its \<open>len\<close> are as before the call.
\<close>

theorem duplicate_group_constraint_rejected:
  assumes "PlayerGroupConstraint_init ps b = Inr c"
    and "g \<in> set (constraints s)"
    and "PlayerGroupConstraint_eq g c"
  shows "raises_ConstraintConflictException (fst (add_group_constraint ps b s))
       \<and> snd (add_group_constraint ps b s) = s
       \<and> len (snd (add_group_constraint ps b s)) = len s"
proof -
  from assms(2,3) have "list_ex (\<lambda>g. PlayerGroupConstraint_eq g c) (constraints s)"
    by (auto simp: list_ex_iff)
  then show ?thesis
    by (simp add: add_group_constraint_unfold [OF assms(1)] split: option.splits)
qed

theorem duplicate_group_constraint_rejected_witness:
  "add_group_constraint [''a'', ''b'', ''c''] (IntBound 2) LineupConstraints_init
     = (Inr (), LineupConstraints_init
          \<lparr>constraints := [\<lparr>players = [''a'', ''b'', ''c''], exact = Some 2, lo = None, hi = None\<rparr>]\<rparr>)
   \<and> raises_ConstraintConflictException
       (fst (add_group_constraint [''c'', ''a'', ''b''] (IntBound 2)
          (LineupConstraints_init
             \<lparr>constraints := [\<lparr>players = [''a'', ''b'', ''c''], exact = Some 2, lo = None, hi = None\<rparr>]\<rparr>)))
   \<and> len (snd (add_group_constraint [''c'', ''a'', ''b''] (IntBound 2)
          (LineupConstraints_init
             \<lparr>constraints := [\<lparr>players = [''a'', ''b'', ''c''], exact = Some 2, lo = None, hi = None\<rparr>]\<rparr>)))
       = 1"
proof -
  let ?g = "\<lparr>players = [''a'', ''b'', ''c''], exact = Some 2, lo = None, hi = None\<rparr>"
  let ?c = "\<lparr>players = [''c'', ''a'', ''b''], exact = Some 2, lo = None, hi = None\<rparr>"
  let ?s = "LineupConstraints_init\<lparr>constraints := [?g]\<rparr>"
  have first: "add_group_constraint [''a'', ''b'', ''c''] (IntBound 2) LineupConstraints_init = (Inr (), ?s)"
    by (simp add: add_group_constraint_def PlayerGroupConstraint_init_exact add_unfold
          LineupConstraints_init_def)
  have c: "PlayerGroupConstraint_init [''c'', ''a'', ''b''] (IntBound 2) = Inr ?c"
    by (simp add: PlayerGroupConstraint_init_exact)
  have g: "?g \<in> set (constraints ?s)"
    by simp
  have e: "PlayerGroupConstraint_eq ?g ?c"
    by (auto simp: PlayerGroupConstraint_eq_def PlayerConstraint_eq_def)
  have l: "len ?s = 1"
    by (simp add: len_def LineupConstraints_init_def)
  from duplicate_group_constraint_rejected [OF c g e] first l
  show ?thesis by simp
qed

lemma find_None_banned_locked:
  "(\<forall>p \<in> set ps. p \<notin> banned s \<and> p \<notin> locked s) \<Longrightarrow>
   find (\<lambda>p. p \<in> locked s \<or> p \<in> banned s) ps = None"
  by (auto simp: find_None_iff)

lemma add_group_constraint_exposure_independent:
  "fst (add_group_constraint ps b (s\<lparr>banned_for_exposure := B, locked_for_exposure := L\<rparr>))
     = fst (add_group_constraint ps b s)"
proof (cases "PlayerGroupConstraint_init ps b")
  case (Inl e)
  then show ?thesis
    by (simp add: add_group_constraint_invalid)
next
  case (Inr c)
  then show ?thesis
    by (simp add: add_group_constraint_unfold split: option.splits)
qed

text \<open>
  Claim C5, as amended. With a player \<open>x\<close> of the group banned for exposure,
  \<open>add_group_constraint\<close> with a valid group returns and appends the constraint, provided
  that no player of the group is in \<open>banned\<close> or \<open>locked\<close> and no equal constraint is
  stored; and whether the call returns or raises, and what it raises, is the same
  whatever the two exposure sets hold.
\<close>

theorem exposure_sets_do_not_block_group_constraint:
  "(PlayerGroupConstraint_init ps b = Inr c \<and> x \<in> set ps \<and> x \<in> banned_for_exposure s
      \<and> (\<forall>p \<in> set ps. p \<notin> banned s \<and> p \<notin> locked s)
      \<and> (\<forall>g \<in> set (constraints s). \<not> PlayerGroupConstraint_eq g c) \<longrightarrow>
        add_group_constraint ps b s = (Inr (), s\<lparr>constraints := constraints s @ [c]\<rparr>))
   \<and> fst (add_group_constraint ps b (s\<lparr>banned_for_exposure := B, locked_for_exposure := L\<rparr>))
        = fst (add_group_constraint ps b s)"
proof (rule conjI)
  show "PlayerGroupConstraint_init ps b = Inr c \<and> x \<in> set ps \<and> x \<in> banned_for_exposure s
      \<and> (\<forall>p \<in> set ps. p \<notin> banned s \<and> p \<notin> locked s)
      \<and> (\<forall>g \<in> set (constraints s). \<not> PlayerGroupConstraint_eq g c) \<longrightarrow>
        add_group_constraint ps b s = (Inr (), s\<lparr>constraints := constraints s @ [c]\<rparr>)"
  proof
    assume h: "PlayerGroupConstraint_init ps b = Inr c \<and> x \<in> set ps \<and> x \<in> banned_for_exposure s
      \<and> (\<forall>p \<in> set ps. p \<notin> banned s \<and> p \<notin> locked s)
      \<and> (\<forall>g \<in> set (constraints s). \<not> PlayerGroupConstraint_eq g c)"
    then have c: "PlayerGroupConstraint_init ps b = Inr c"
      by simp
    then have ps: "players c = ps"
      by (rule PlayerGroupConstraint_init_players)
    from h have "find (\<lambda>p. p \<in> locked s \<or> p \<in> banned s) ps = None"
      by (simp add: find_None_banned_locked)
    moreover from h have "\<not> list_ex (\<lambda>g. PlayerGroupConstraint_eq g c) (constraints s)"
      by (simp add: list_ex_iff)
    ultimately show "add_group_constraint ps b s = (Inr (), s\<lparr>constraints := constraints s @ [c]\<rparr>)"
      by (simp add: add_group_constraint_unfold [OF c] ps)
  qed
next
  show "fst (add_group_constraint ps b (s\<lparr>banned_for_exposure := B, locked_for_exposure := L\<rparr>))
        = fst (add_group_constraint ps b s)"
    by (rule add_group_constraint_exposure_independent)
qed

theorem exposure_sets_do_not_block_group_constraint_witness:
  "add_group_constraint [''x'', ''y''] (IntBound 1)
     \<lparr>constraints = [], banned = {}, locked = {},
      banned_for_exposure = {''x''}, locked_for_exposure = {}\<rparr>
   = (Inr (),
      \<lparr>constraints = [\<lparr>players = [''x'', ''y''], exact = Some 1, lo = None, hi = None\<rparr>],
       banned = {}, locked = {},
       banned_for_exposure = {''x''}, locked_for_exposure = {}\<rparr>)"
proof -
  let ?s = "\<lparr>constraints = [], banned = {}, locked = {},
      banned_for_exposure = {''x''}, locked_for_exposure = {}\<rparr>"
  let ?c = "\<lparr>players = [''x'', ''y''], exact = Some 1, lo = None, hi = None\<rparr>"
  have h: "PlayerGroupConstraint_init [''x'', ''y''] (IntBound 1) = Inr ?c
      \<and> ''x'' \<in> set [''x'', ''y''] \<and> ''x'' \<in> banned_for_exposure ?s
      \<and> (\<forall>p \<in> set [''x'', ''y'']. p \<notin> banned ?s \<and> p \<notin> locked ?s)
      \<and> (\<forall>g \<in> set (constraints ?s). \<not> PlayerGroupConstraint_eq g ?c)"
    by (simp add: PlayerGroupConstraint_init_exact)
  from exposure_sets_do_not_block_group_constraint
         [of "[''x'', ''y'']" "IntBound 1" ?c "''x''" ?s "{}" "{}"] h
  show ?thesis
    by simp
qed

text \<open>
  Claim C5 as worded fails when another player of the group is banned: after
  \<open>ban("y")\<close> and \<open>ban("x", for_exposure=True)\<close>, the group \<open>["x", "y"]\<close> with bound 1 is
  valid and \<open>x\<close> is in neither \<open>banned\<close> nor \<open>locked\<close>, and \<open>add_group_constraint\<close> raises
  \<open>ConstraintConflictException\<close> for \<open>y\<close>.
\<close>

theorem exposure_banned_group_counterexample:
  "ban (Str ''x'') True (snd (ban (Str ''y'') False LineupConstraints_init))
     = (Inr (), \<lparr>constraints = [], banned = {''y''}, locked = {},
                banned_for_exposure = {''x''}, locked_for_exposure = {}\<rparr>)
   \<and> PlayerGroupConstraint_init [''x'', ''y''] (IntBound 1)
       = Inr \<lparr>players = [''x'', ''y''], exact = Some 1, lo = None, hi = None\<rparr>
   \<and> add_group_constraint [''x'', ''y''] (IntBound 1)
        \<lparr>constraints = [], banned = {''y''}, locked = {},
         banned_for_exposure = {''x''}, locked_for_exposure = {}\<rparr>
       = (Inl (ConstraintConflictException (BanLockExists ''y'')),
          \<lparr>constraints = [], banned = {''y''}, locked = {},
           banned_for_exposure = {''x''}, locked_for_exposure = {}\<rparr>)"
  by (simp add: ban_unfold contains_def LineupConstraints_init_def
        PlayerGroupConstraint_init_exact add_group_constraint_def add_unfold)

subsection \<open>Locks for exposure\<close>

text \<open>
  Claim C6. \<open>lock(x, for_exposure=True)\<close> does not change what \<open>is_locked\<close> answers for
  any player; after the call the membership test holds for \<open>x\<close>; and when the call
  returns, \<open>is_locked(x)\<close> is false.
\<close>

theorem lock_for_exposure_invisible_to_is_locked:
  "is_locked (snd (lock (Str x) True s)) p = is_locked s p
   \<and> contains (snd (lock (Str x) True s)) x
   \<and> (fst (lock (Str x) True s) = Inr () \<longrightarrow> \<not> is_locked (snd (lock (Str x) True s)) x)"
proof (cases "contains s x")
  case True
  then have "lock (Str x) True s = (Inl (ConstraintConflictException (ExistsInAnother x)), s)"
    by (simp add: lock_unfold)
  with True show ?thesis
    by simp
next
  case False
  then have "lock (Str x) True s
      = (Inr (), s\<lparr>locked_for_exposure := locked_for_exposure s \<union> set [x]\<rparr>)"
    by (simp add: lock_unfold)
  moreover from False have "x \<notin> locked s"
    by (simp add: contains_iff)
  ultimately show ?thesis
    by (simp add: is_locked_def contains_def)
qed

theorem lock_for_exposure_invisible_to_is_locked_witness:
  "lock (Str ''x'') True LineupConstraints_init
     = (Inr (), LineupConstraints_init\<lparr>locked_for_exposure := {''x''}\<rparr>)
   \<and> \<not> is_locked (snd (lock (Str ''x'') True LineupConstraints_init)) ''x''
   \<and> contains (snd (lock (Str ''x'') True LineupConstraints_init)) ''x''"
proof -
  have ok: "lock (Str ''x'') True LineupConstraints_init
     = (Inr (), LineupConstraints_init\<lparr>locked_for_exposure := {''x''}\<rparr>)"
    by (simp add: lock_unfold contains_def LineupConstraints_init_def)
  then have r: "fst (lock (Str ''x'') True LineupConstraints_init) = Inr ()"
    by simp
  from lock_for_exposure_invisible_to_is_locked [of "''x''" LineupConstraints_init "''x''"] r ok
  show ?thesis
    by (simp add: is_locked_def LineupConstraints_init_def)
qed

subsection \<open>Clearing the exposure sets\<close>

text \<open>
  Claim C7. \<open>clear_exposure_constraints\<close> returns, leaves \<open>banned_for_exposure\<close> and
  \<open>locked_for_exposure\<close> empty, and leaves the constraints, \<open>banned\<close> and \<open>locked\<close> as
  they were.
\<close>

theorem clear_exposure_constraints_frame:
  "fst (clear_exposure_constraints s) = Inr ()
   \<and> banned_for_exposure (snd (clear_exposure_constraints s)) = {}
   \<and> locked_for_exposure (snd (clear_exposure_constraints s)) = {}
   \<and> constraints (snd (clear_exposure_constraints s)) = constraints s
   \<and> banned (snd (clear_exposure_constraints s)) = banned s
   \<and> locked (snd (clear_exposure_constraints s)) = locked s"
  by (simp add: clear_exposure_constraints_def seq_apply assign_apply)

theorem clear_exposure_constraints_frame_witness:
  "clear_exposure_constraints
     \<lparr>constraints = [\<lparr>players = [''a'', ''b''], exact = Some 1, lo = None, hi = None\<rparr>],
      banned = {''c''}, locked = {''d''},
      banned_for_exposure = {''e''}, locked_for_exposure = {''f''}\<rparr>
   = (Inr (),
      \<lparr>constraints = [\<lparr>players = [''a'', ''b''], exact = Some 1, lo = None, hi = None\<rparr>],
       banned = {''c''}, locked = {''d''},
       banned_for_exposure = {}, locked_for_exposure = {}\<rparr>)"
  using clear_exposure_constraints_frame
    [of "\<lparr>constraints = [\<lparr>players = [''a'', ''b''], exact = Some 1, lo = None, hi = None\<rparr>],
      banned = {''c''}, locked = {''d''},
      banned_for_exposure = {''e''}, locked_for_exposure = {''f''}\<rparr>"]
  by (simp add: clear_exposure_constraints_def seq_apply assign_apply)

subsection \<open>Iteration\<close>

text \<open>
  Claim C8. A loop over a fresh iterator of the object receives the stored constraints,
  each once and in the order of the list, and then stops: the iterator it leaves behind
  raises \<open>StopIteration\<close> and a loop over it receives nothing. The iterator is made from
  the constraints alone, so the bans and locks never show up, and every new iterator of
  the same object starts at the first constraint again. The order of the list is the
  order of insertion: a call of \<open>add_group_constraint\<close> that returns puts its constraint
  after the ones the loop received before.
\<close>

theorem iteration_yields_constraints_in_order:
  "fst (for_loop (iter s)) = constraints s
   \<and> fst (ConstraintIterator_next (snd (for_loop (iter s)))) = None
   \<and> fst (for_loop (snd (for_loop (iter s)))) = []
   \<and> iter (s\<lparr>banned := B, locked := L, banned_for_exposure := BE, locked_for_exposure := LE\<rparr>)
        = iter s
   \<and> (PlayerGroupConstraint_init ps b = Inr c \<and> fst (add_group_constraint ps b s) = Inr () \<longrightarrow>
         fst (for_loop (iter (snd (add_group_constraint ps b s)))) = fst (for_loop (iter s)) @ [c])"
proof -
  have "PlayerGroupConstraint_init ps b = Inr c \<and> fst (add_group_constraint ps b s) = Inr () \<longrightarrow>
         fst (for_loop (iter (snd (add_group_constraint ps b s)))) = fst (for_loop (iter s)) @ [c]"
  proof
    assume h: "PlayerGroupConstraint_init ps b = Inr c \<and> fst (add_group_constraint ps b s) = Inr ()"
    then have c: "PlayerGroupConstraint_init ps b = Inr c"
      by simp
    from h have "snd (add_group_constraint ps b s) = s\<lparr>constraints := constraints s @ [c]\<rparr>"
      by (simp add: add_group_constraint_unfold [OF c] split: option.splits if_splits)
    then show "fst (for_loop (iter (snd (add_group_constraint ps b s)))) = fst (for_loop (iter s)) @ [c]"
      by (simp add: for_loop_iter)
  qed
  moreover have "fst (for_loop (snd (for_loop (iter s)))) = []"
    by (simp add: for_loop_iter for_loop_drop)
  moreover have "fst (ConstraintIterator_next (snd (for_loop (iter s)))) = None"
    by (simp add: for_loop_iter ConstraintIterator_next_def)
  moreover have "fst (for_loop (iter s)) = constraints s"
    by (simp add: for_loop_iter)
  moreover have "iter (s\<lparr>banned := B, locked := L, banned_for_exposure := BE, locked_for_exposure := LE\<rparr>)
        = iter s"
    by (simp add: iter_def)
  ultimately show ?thesis
    by blast
qed

theorem iteration_yields_constraints_in_order_witness:
  "fst (for_loop (iter
     \<lparr>constraints = [\<lparr>players = [''a'', ''b''], exact = Some 1, lo = None, hi = None\<rparr>,
                     \<lparr>players = [''c'', ''d'', ''e''], exact = None, lo = Some 1, hi = Some 2\<rparr>],
      banned = {''x''}, locked = {''y''},
      banned_for_exposure = {}, locked_for_exposure = {}\<rparr>))
   = [\<lparr>players = [''a'', ''b''], exact = Some 1, lo = None, hi = None\<rparr>,
      \<lparr>players = [''c'', ''d'', ''e''], exact = None, lo = Some 1, hi = Some 2\<rparr>]
   \<and> fst (for_loop (iter (snd (add_group_constraint [''f'', ''g''] (IntBound 1)
     \<lparr>constraints = [\<lparr>players = [''a'', ''b''], exact = Some 1, lo = None, hi = None\<rparr>,
                     \<lparr>players = [''c'', ''d'', ''e''], exact = None, lo = Some 1, hi = Some 2\<rparr>],
      banned = {''x''}, locked = {''y''},
      banned_for_exposure = {}, locked_for_exposure = {}\<rparr>))))
   = [\<lparr>players = [''a'', ''b''], exact = Some 1, lo = None, hi = None\<rparr>,
      \<lparr>players = [''c'', ''d'', ''e''], exact = None, lo = Some 1, hi = Some 2\<rparr>,
      \<lparr>players = [''f'', ''g''], exact = Some 1, lo = None, hi = None\<rparr>]"
proof -
  let ?s = "\<lparr>constraints = [\<lparr>players = [''a'', ''b''], exact = Some 1, lo = None, hi = None\<rparr>,
                     \<lparr>players = [''c'', ''d'', ''e''], exact = None, lo = Some 1, hi = Some 2\<rparr>],
      banned = {''x''}, locked = {''y''},
      banned_for_exposure = {}, locked_for_exposure = {}\<rparr>"
  let ?c = "\<lparr>players = [''f'', ''g''], exact = Some 1, lo = None, hi = None\<rparr>"
  have c: "PlayerGroupConstraint_init [''f'', ''g''] (IntBound 1) = Inr ?c"
    by (simp add: PlayerGroupConstraint_init_exact)
  have ok: "fst (add_group_constraint [''f'', ''g''] (IntBound 1) ?s) = Inr ()"
    by (simp add: add_group_constraint_unfold [OF c] PlayerGroupConstraint_eq_def
          PlayerConstraint_eq_def doubleton_eq_iff)
  from iteration_yields_constraints_in_order [of ?s "{}" "{}" "{}" "{}" "[''f'', ''g'']" "IntBound 1" ?c]
    c ok
  show ?thesis
    by simp
qed

subsection \<open>A bare player name\<close>

text \<open>
  Claim C9. \<open>ban\<close> and \<open>lock\<close> with a bare string \<open>x\<close> do what they do with the list
  \<open>[x]\<close>: the same result and the same object afterwards, for either value of
  \<open>for_exposure\<close>. The string is one player: when the call returns, the target set has
  gained \<open>x\<close> itself and nothing else.
\<close>

theorem bare_identifier_is_singleton:
  "ban (Str x) fe s = ban (Coll [x]) fe s
   \<and> lock (Str x) fe s = lock (Coll [x]) fe s
   \<and> iterableify (Str x) = [x]
   \<and> (fst (ban (Str x) False s) = Inr () \<longrightarrow>
         snd (ban (Str x) False s) = s\<lparr>banned := insert x (banned s)\<rparr>)
   \<and> (fst (lock (Str x) False s) = Inr () \<longrightarrow>
         snd (lock (Str x) False s) = s\<lparr>locked := insert x (locked s)\<rparr>)"
  by (simp add: ban_unfold lock_unfold)

theorem bare_identifier_is_singleton_witness:
  "ban (Str ''ab'') False LineupConstraints_init
     = (Inr (), LineupConstraints_init\<lparr>banned := {''ab''}\<rparr>)
   \<and> ban (Coll [''ab'']) False LineupConstraints_init
     = (Inr (), LineupConstraints_init\<lparr>banned := {''ab''}\<rparr>)
   \<and> lock (Str ''ab'') False LineupConstraints_init
     = (Inr (), LineupConstraints_init\<lparr>locked := {''ab''}\<rparr>)
   \<and> lock (Coll [''ab'']) False LineupConstraints_init
     = (Inr (), LineupConstraints_init\<lparr>locked := {''ab''}\<rparr>)"
proof -
  note t = bare_identifier_is_singleton [of "''ab''" False LineupConstraints_init]
  have b: "fst (ban (Str ''ab'') False LineupConstraints_init) = Inr ()"
    by (simp add: ban_unfold contains_def LineupConstraints_init_def)
  have l: "fst (lock (Str ''ab'') False LineupConstraints_init) = Inr ()"
    by (simp add: lock_unfold contains_def LineupConstraints_init_def)
  from t b have "snd (ban (Str ''ab'') False LineupConstraints_init)
      = LineupConstraints_init\<lparr>banned := insert ''ab'' (banned LineupConstraints_init)\<rparr>"
    by blast
  with b have sb: "ban (Str ''ab'') False LineupConstraints_init
      = (Inr (), LineupConstraints_init\<lparr>banned := {''ab''}\<rparr>)"
    by (simp add: prod_eq_iff LineupConstraints_init_def)
  from t l have "snd (lock (Str ''ab'') False LineupConstraints_init)
      = LineupConstraints_init\<lparr>locked := insert ''ab'' (locked LineupConstraints_init)\<rparr>"
    by blast
  with l have sl: "lock (Str ''ab'') False LineupConstraints_init
      = (Inr (), LineupConstraints_init\<lparr>locked := {''ab''}\<rparr>)"
    by (simp add: prod_eq_iff LineupConstraints_init_def)
  from t have "ban (Coll [''ab'']) False LineupConstraints_init = ban (Str ''ab'') False LineupConstraints_init"
    and "lock (Coll [''ab'']) False LineupConstraints_init = lock (Str ''ab'') False LineupConstraints_init"
    by simp_all
  with sb sl show ?thesis
    by simp
qed



subsection \<open>Overlapping groups\<close>

text \<open>
  Claim C10, as amended. \<open>add_group_constraint\<close> does not compare the players of the new
  group with the groups of the stored constraints. When the arguments make a valid
  constraint \<open>c\<close>, a stored constraint \<open>g\<close> shares a player \<open>p\<close> with it without having the
  same set of players, no player of the new group is in \<open>banned\<close> or \<open>locked\<close>, and no
  stored constraint is equal to \<open>c\<close> by \<open>__eq__\<close> (the same set of players and the same
  \<open>exact\<close>, \<open>lo\<close> and \<open>hi\<close>), the call returns and appends \<open>c\<close>; then \<open>g\<close> and \<open>c\<close> are
  two stored constraints that both hold \<open>p\<close>.
\<close>

theorem overlapping_groups_accepted:
  assumes "PlayerGroupConstraint_init ps b = Inr c"
    and "g \<in> set (constraints s)"
    and "p \<in> set ps" and "p \<in> set (players g)"
    and "set (players g) \<noteq> set ps"
    and "\<forall>g' \<in> set (constraints s). \<not> PlayerGroupConstraint_eq g' c"
    and "\<forall>q \<in> set ps. q \<notin> banned s \<and> q \<notin> locked s"
  shows "add_group_constraint ps b s = (Inr (), s\<lparr>constraints := constraints s @ [c]\<rparr>)
       \<and> g \<in> set (constraints (snd (add_group_constraint ps b s)))
       \<and> c \<in> set (constraints (snd (add_group_constraint ps b s)))
       \<and> g \<noteq> c
       \<and> p \<in> set (players g) \<and> p \<in> set (players c)"
proof -
  from assms(1) have ps: "players c = ps"
    by (rule PlayerGroupConstraint_init_players)
  from assms(7) have "find (\<lambda>p. p \<in> locked s \<or> p \<in> banned s) ps = None"
    by (rule find_None_banned_locked)
  moreover from assms(6) have "\<not> list_ex (\<lambda>g'. PlayerGroupConstraint_eq g' c) (constraints s)"
    by (simp add: list_ex_iff)
  ultimately have r: "add_group_constraint ps b s = (Inr (), s\<lparr>constraints := constraints s @ [c]\<rparr>)"
    by (simp add: add_group_constraint_unfold [OF assms(1)] ps)
  have "g \<noteq> c"
  proof
    assume "g = c"
    with assms(5) ps show False
      by simp
  qed
  with r assms(2,3,4) ps show ?thesis
    by simp
qed

theorem overlapping_groups_accepted_witness:
  "add_group_constraint [''b'', ''c'', ''d''] (IntBound 2)
     \<lparr>constraints = [\<lparr>players = [''a'', ''b''], exact = Some 1, lo = None, hi = None\<rparr>],
      banned = {}, locked = {}, banned_for_exposure = {}, locked_for_exposure = {}\<rparr>
   = (Inr (),
      \<lparr>constraints = [\<lparr>players = [''a'', ''b''], exact = Some 1, lo = None, hi = None\<rparr>,
                      \<lparr>players = [''b'', ''c'', ''d''], exact = Some 2, lo = None, hi = None\<rparr>],
       banned = {}, locked = {}, banned_for_exposure = {}, locked_for_exposure = {}\<rparr>)"
proof -
  let ?g = "\<lparr>players = [''a'', ''b''], exact = Some 1, lo = None, hi = None\<rparr>"
  let ?c = "\<lparr>players = [''b'', ''c'', ''d''], exact = Some 2, lo = None, hi = None\<rparr>"
  let ?s = "\<lparr>constraints = [?g], banned = {}, locked = {},
             banned_for_exposure = {}, locked_for_exposure = {}\<rparr>"
  have c: "PlayerGroupConstraint_init [''b'', ''c'', ''d''] (IntBound 2) = Inr ?c"
    by (simp add: PlayerGroupConstraint_init_exact)
  have g: "?g \<in> set (constraints ?s)"
    by simp
  have p1: "''b'' \<in> set [''b'', ''c'', ''d'']"
    by simp
  have p2: "''b'' \<in> set (players ?g)"
    by simp
  have "''c'' \<notin> set [''a'', ''b'']" and "''c'' \<in> set [''b'', ''c'', ''d'']"
    by simp_all
  then have "set [''a'', ''b''] \<noteq> set [''b'', ''c'', ''d'']"
    by metis
  then have ne: "set (players ?g) \<noteq> set [''b'', ''c'', ''d'']"
    by simp
  have nd: "\<forall>g' \<in> set (constraints ?s). \<not> PlayerGroupConstraint_eq g' ?c"
    by (simp add: PlayerGroupConstraint_eq_def)
  have nb: "\<forall>q \<in> set [''b'', ''c'', ''d'']. q \<notin> banned ?s \<and> q \<notin> locked ?s"
    by simp
  from overlapping_groups_accepted [OF c g p1 p2 ne nd nb]
  show ?thesis
    by simp
qed

text \<open>
  Claim C10 as worded fails when the new constraint is equal to another stored
  constraint than the one it overlaps. After \<open>add_group_constraint(["a", "b"], 1)\<close> and
  \<open>add_group_constraint(["b", "c", "d"], 2)\<close>, the group \<open>["b", "c", "d"]\<close> with bound 2 is
  valid, shares \<open>b\<close> with the first stored group without having the same players, and
  nobody is banned or locked; \<open>add_group_constraint\<close> raises \<open>ConstraintConflictException\<close>
  ('Duplicate constraint') and leaves the object as it was.
\<close>

theorem overlapping_groups_duplicate_counterexample:
  "add_group_constraint [''a'', ''b''] (IntBound 1) LineupConstraints_init
     = (Inr (),
        \<lparr>constraints = [\<lparr>players = [''a'', ''b''], exact = Some 1, lo = None, hi = None\<rparr>],
         banned = {}, locked = {}, banned_for_exposure = {}, locked_for_exposure = {}\<rparr>)
   \<and> add_group_constraint [''b'', ''c'', ''d''] (IntBound 2)
        \<lparr>constraints = [\<lparr>players = [''a'', ''b''], exact = Some 1, lo = None, hi = None\<rparr>],
         banned = {}, locked = {}, banned_for_exposure = {}, locked_for_exposure = {}\<rparr>
     = (Inr (),
        \<lparr>constraints = [\<lparr>players = [''a'', ''b''], exact = Some 1, lo = None, hi = None\<rparr>,
                        \<lparr>players = [''b'', ''c'', ''d''], exact = Some 2, lo = None, hi = None\<rparr>],
         banned = {}, locked = {}, banned_for_exposure = {}, locked_for_exposure = {}\<rparr>)
   \<and> PlayerGroupConstraint_init [''b'', ''c'', ''d''] (IntBound 2)
       = Inr \<lparr>players = [''b'', ''c'', ''d''], exact = Some 2, lo = None, hi = None\<rparr>
   \<and> ''b'' \<in> set [''a'', ''b''] \<and> ''b'' \<in> set [''b'', ''c'', ''d'']
   \<and> set [''a'', ''b''] \<noteq> set [''b'', ''c'', ''d'']
   \<and> add_group_constraint [''b'', ''c'', ''d''] (IntBound 2)
        \<lparr>constraints = [\<lparr>players = [''a'', ''b''], exact = Some 1, lo = None, hi = None\<rparr>,
                        \<lparr>players = [''b'', ''c'', ''d''], exact = Some 2, lo = None, hi = None\<rparr>],
         banned = {}, locked = {}, banned_for_exposure = {}, locked_for_exposure = {}\<rparr>
     = (Inl (ConstraintConflictException DuplicateConstraint),
        \<lparr>constraints = [\<lparr>players = [''a'', ''b''], exact = Some 1, lo = None, hi = None\<rparr>,
                        \<lparr>players = [''b'', ''c'', ''d''], exact = Some 2, lo = None, hi = None\<rparr>],
         banned = {}, locked = {}, banned_for_exposure = {}, locked_for_exposure = {}\<rparr>)"
proof -
  let ?g = "\<lparr>players = [''a'', ''b''], exact = Some 1, lo = None, hi = None\<rparr>"
  let ?c = "\<lparr>players = [''b'', ''c'', ''d''], exact = Some 2, lo = None, hi = None\<rparr>"
  have g: "PlayerGroupConstraint_init [''a'', ''b''] (IntBound 1) = Inr ?g"
    by (simp add: PlayerGroupConstraint_init_exact)
  have c: "PlayerGroupConstraint_init [''b'', ''c'', ''d''] (IntBound 2) = Inr ?c"
    by (simp add: PlayerGroupConstraint_init_exact)
  have first: "add_group_constraint [''a'', ''b''] (IntBound 1) LineupConstraints_init
     = (Inr (), \<lparr>constraints = [?g], banned = {}, locked = {},
                banned_for_exposure = {}, locked_for_exposure = {}\<rparr>)"
    by (simp add: add_group_constraint_unfold [OF g] LineupConstraints_init_def)
  have second: "add_group_constraint [''b'', ''c'', ''d''] (IntBound 2)
        \<lparr>constraints = [?g], banned = {}, locked = {},
         banned_for_exposure = {}, locked_for_exposure = {}\<rparr>
     = (Inr (), \<lparr>constraints = [?g, ?c], banned = {}, locked = {},
                banned_for_exposure = {}, locked_for_exposure = {}\<rparr>)"
    by (simp add: add_group_constraint_unfold [OF c] PlayerGroupConstraint_eq_def)
  have third: "add_group_constraint [''b'', ''c'', ''d''] (IntBound 2)
        \<lparr>constraints = [?g, ?c], banned = {}, locked = {},
         banned_for_exposure = {}, locked_for_exposure = {}\<rparr>
     = (Inl (ConstraintConflictException DuplicateConstraint),
        \<lparr>constraints = [?g, ?c], banned = {}, locked = {},
         banned_for_exposure = {}, locked_for_exposure = {}\<rparr>)"
    by (simp add: add_group_constraint_unfold [OF c] PlayerGroupConstraint_eq_def
          PlayerConstraint_eq_def)
  have "''c'' \<notin> set [''a'', ''b'']" and "''c'' \<in> set [''b'', ''c'', ''d'']"
    by simp_all
  then have ne: "set [''a'', ''b''] \<noteq> set [''b'', ''c'', ''d'']"
    by metis
  have ov: "''b'' \<in> set [''a'', ''b'']" "''b'' \<in> set [''b'', ''c'', ''d'']"
    by simp_all
  from first second c ov ne third show ?thesis
    by (intro conjI)
qed

end
